theory Spec2Isabelle
  imports Main "HOL-Library.Sublist" "HOL-Library.Multiset"
begin

section \<open>Text primitives\<close>

text \<open>
  A Python \<open>str\<close> is modelled as a \<open>string\<close> whose characters are the code points
  below 256. On that range \<open>str.lower\<close> moves the capitals \<open>A\<close>..\<open>Z\<close> and the Latin-1
  capitals (192..222 except the multiplication sign 215) up by 32 and leaves every other
  character alone. Python's \<open>kw in t\<close> on strings is the contiguous-sublist test
  \<open>sublist kw t\<close>.
\<close>

definition lower_char :: "char \<Rightarrow> char" where
  "lower_char c =
     (let n = (of_char c :: nat)
      in if (65 \<le> n \<and> n \<le> 90) \<or> (192 \<le> n \<and> n \<le> 222 \<and> n \<noteq> 215)
         then char_of (n + 32) else c)"

definition lower :: "string \<Rightarrow> string" where
  "lower s = map lower_char s"

section \<open>Keyword based urgency and topic detection (main.py, score_urgency)\<close>

text \<open>
  \<open>URGENT_KEYWORDS\<close> is a dict literal; Python iterates it in insertion order, so it is
  an association list here.
\<close>

definition URGENT_KEYWORDS :: "(string \<times> string list) list" where
  "URGENT_KEYWORDS =
     [(''loan'', [''loan'', ''disburse'', ''disbursal'', ''approval'', ''approved'',
                  ''when will i get'', ''payout'']),
      (''account'', [''account'', ''update'', ''profile'', ''change'', ''password'']),
      (''kyc'', [''kyc'', ''verify'', ''verification'', ''id'', ''identity'']),
      (''payment'', [''payment'', ''repay'', ''repayment'', ''due'', ''overdue''])]"

definition EXTRA_URGENT :: "string list" where
  "EXTRA_URGENT = [''urgent'', ''asap'', ''immediately'', ''now'', ''help'']"

text \<open>\<open>hits = sum(1 for kw in kws if kw in t)\<close>\<close>

definition hits_of :: "string list \<Rightarrow> string \<Rightarrow> int" where
  "hits_of kws t = (\<Sum>kw\<leftarrow>filter (\<lambda>kw. sublist kw t) kws. 1)"

text \<open>
  One pass of the \<open>for tp, kws in URGENT_KEYWORDS.items()\<close> loop; the loop state is the
  pair \<open>(score, topic)\<close>.
\<close>

definition bucket_step ::
  "string \<Rightarrow> string \<times> string list \<Rightarrow> int \<times> string option \<Rightarrow> int \<times> string option" where
  "bucket_step t b st =
     (case b of (tp, kws) \<Rightarrow> case st of (score, topic) \<Rightarrow>
        let hits = hits_of kws t
        in if hits \<noteq> 0
           then (score + (30 + 10 * (hits - 1)), if topic = None then Some tp else topic)
           else (score, topic))"

definition score_urgency :: "string \<Rightarrow> int \<times> string option" where
  "score_urgency text =
     (let t = lower text;
          (score, topic) = fold (bucket_step t) URGENT_KEYWORDS (0, None);
          score = (if list_ex (\<lambda>word. sublist word t) EXTRA_URGENT then score + 20 else score);
          score = (if sublist ''when'' t \<and>
                      (sublist ''loan'' t \<or> sublist ''disbur'' t \<or> sublist ''approved'' t)
                   then score + 20 else score)
      in (min score 100, topic))"

subsection \<open>The scoring rule in the words of the specification\<close>

text \<open>
  The specification's reading of the score: per bucket, the number of the bucket's
  keywords that occur in the lower-cased text; a positive count contributes
  \<open>30 + 10 * (count - 1)\<close>; two bonuses of 20; the total clamped at 100.
\<close>

definition spec_buckets :: "(string \<times> string list) list" where
  "spec_buckets =
     [(''loan'', [''loan'', ''disburse'', ''disbursal'', ''approval'', ''approved'',
                  ''when will i get'', ''payout'']),
      (''account'', [''account'', ''update'', ''profile'', ''change'', ''password'']),
      (''kyc'', [''kyc'', ''verify'', ''verification'', ''id'', ''identity'']),
      (''payment'', [''payment'', ''repay'', ''repayment'', ''due'', ''overdue''])]"

definition spec_count :: "string list \<Rightarrow> string \<Rightarrow> nat" where
  "spec_count kws t = length (filter (\<lambda>kw. sublist kw t) kws)"

definition spec_contribution :: "string list \<Rightarrow> string \<Rightarrow> int" where
  "spec_contribution kws t =
     (if 0 < spec_count kws t then 30 + 10 * (int (spec_count kws t) - 1) else 0)"

definition spec_urgency :: "string \<Rightarrow> int" where
  "spec_urgency text =
     (let t = lower text
      in min 100
           ((\<Sum>b\<leftarrow>spec_buckets. spec_contribution (snd b) t)
            + (if list_ex (\<lambda>w. sublist w t) [''urgent'', ''asap'', ''immediately'', ''now'', ''help'']
               then 20 else 0)
            + (if sublist ''when'' t \<and>
                  (sublist ''loan'' t \<or> sublist ''disbur'' t \<or> sublist ''approved'' t)
               then 20 else 0)))"

text \<open>The first bucket, in table order, with at least one keyword hit.\<close>

definition first_hit_bucket :: "string \<Rightarrow> string option" where
  "first_hit_bucket t =
     map_option fst (find (\<lambda>b. list_ex (\<lambda>kw. sublist kw t) (snd b)) URGENT_KEYWORDS)"

section \<open>Stored documents\<close>

text \<open>
  A document of the \<open>message\<close> collection, with the fields \<open>create_message\<close> and
  \<open>import_csv\<close> store (schemas.py, Message). \<open>mid\<close> is the document's \<open>_id\<close>: an
  ObjectId, of which only the order matters here, so a natural number.
\<close>

record message_data =
  customer_id :: string
  "text" :: string
  channel :: string
  direction :: string
  status :: string
  urgency_score :: int
  topic :: "string option"

record message = message_data +
  mid :: nat

text \<open>
  A document of the \<open>customer\<close> collection (CreateCustomer); \<open>cid\<close> is its \<open>_id\<close> as
  the 24 lower-case hexadecimal digits that \<open>str\<close> prints.
\<close>

record customer =
  cid :: string
  name :: string
  email :: string
  phone :: "string option"
  account_id :: "string option"
  is_vip :: bool
  last_loan_status :: "string option"
  kyc_status :: "string option"
  "notes" :: "string option"

text \<open>
  The exceptions that reach the caller: \<open>InvalidId\<close> from bson, \<open>OverflowError\<close> from
  the driver's encoder, \<open>OperationFailure\<close> for a request that the database rejects.
\<close>

datatype error = InvalidId | OperationFailure | OverflowError

text \<open>
  The database behind the module-level \<open>db\<close>.
  \<^item> \<open>message_coll\<close> is the \<open>message\<close> collection: the list of its documents in the
    order in which a scan of the collection returns them.
  \<^item> \<open>customer_find_one key\<close> is what
    \<open>db["customer"].find_one({"_id": ObjectId(key)})\<close> gives for the string \<open>key\<close>:
    the exception that \<open>bson.ObjectId\<close> raises for a key it does not accept, and
    otherwise the customer document with that identifier, if there is one. Neither bson
    nor the customer collection is in the sources, so nothing is fixed about it.
  \<^item> \<open>regex_server p\<close> is what the database does with a pattern \<open>p\<close> that uses
    regular-expression syntax (see \<open>regex_i\<close> below): it rejects the pattern, or it
    gives the test that tells the texts in which \<open>p\<close> matches from the others. Nothing
    is fixed about it either.
\<close>

record database =
  message_coll :: "message list"
  customer_find_one :: "string \<Rightarrow> error + customer option"
  regex_server :: "string \<Rightarrow> error + (string \<Rightarrow> bool)"


section \<open>Conversations per customer (main.py, conversations)\<close>

subsection \<open>What the code takes from its libraries\<close>

text \<open>
  \<open>{"text": {"$regex": q, "$options": "i"}}\<close> keeps the documents in whose text the
  regular expression \<open>q\<close> matches somewhere, letters compared without regard to case.
  A pattern made of ordinary characters and the wildcard \<open>.\<close> (any character but a line
  feed) is searched for as written below. A pattern with any other character of the
  regular-expression syntax, or with a NUL character, is left to \<open>regex_server\<close>.
\<close>

definition regex_syntax_chars :: "char list" where
  "regex_syntax_chars =
     [CHR 0x5C, CHR ''^'', CHR ''$'', CHR ''|'', CHR ''?'', CHR ''*'', CHR ''+'',
      CHR ''('', CHR '')'', CHR ''['', CHR '']'', CHR ''{'', CHR ''}'']"

definition regex_modelled :: "string \<Rightarrow> bool" where
  "regex_modelled q = list_all (\<lambda>c. c \<notin> set regex_syntax_chars \<and> c \<noteq> CHR 0x00) q"

definition regex_char :: "char \<Rightarrow> char \<Rightarrow> bool" where
  "regex_char p c = (if p = CHR ''.'' then c \<noteq> CHR 0x0A else lower_char p = lower_char c)"

fun regex_at_start :: "string \<Rightarrow> string \<Rightarrow> bool" where
  "regex_at_start [] cs = True"
| "regex_at_start (p # ps) [] = False"
| "regex_at_start (p # ps) (c # cs) = (regex_char p c \<and> regex_at_start ps cs)"

fun regex_search :: "string \<Rightarrow> string \<Rightarrow> bool" where
  "regex_search ps [] = regex_at_start ps []"
| "regex_search ps (c # cs) = (regex_at_start ps (c # cs) \<or> regex_search ps cs)"

definition regex_i ::
  "(string \<Rightarrow> error + (string \<Rightarrow> bool)) \<Rightarrow> string \<Rightarrow> error + (string \<Rightarrow> bool)" where
  "regex_i server p = (if regex_modelled p then Inr (regex_search p) else server p)"

subsection \<open>The aggregation pipeline\<close>

text \<open>
  The \<open>$match\<close> stage is in the pipeline only under \<open>if q:\<close>, that is for a filter
  that is present and not the empty string.
\<close>

definition match_stage ::
  "(string \<Rightarrow> error + (string \<Rightarrow> bool)) \<Rightarrow> string option \<Rightarrow> message list
     \<Rightarrow> error + message list" where
  "match_stage server q docs =
     (case q of
        None \<Rightarrow> Inr docs
      | Some p \<Rightarrow>
          if p = [] then Inr docs
          else (case regex_i server p of
                  Inl e \<Rightarrow> Inl e
                | Inr matches \<Rightarrow> Inr (filter (\<lambda>m. matches (text m)) docs)))"

text \<open>
  One output document of the \<open>$group\<close> stage: \<open>g_id\<close> is its \<open>_id\<close> (the group key
  \<open>$customer_id\<close>), the other fields are the four accumulators.
\<close>

record group_row =
  g_id :: string
  last_message :: string
  last_time :: nat
  max_urgency :: int
  topics :: "string option list"

text \<open>
  The accumulators take the documents one by one, in the order in which they reach the
  stage: \<open>$last\<close> keeps the value of the latest document seen, \<open>$max\<close> the greatest
  value, \<open>$addToSet\<close> each distinct value once.
\<close>

definition group_new :: "message \<Rightarrow> group_row" where
  "group_new m =
     \<lparr>g_id = customer_id m, last_message = text m, last_time = mid m,
      max_urgency = urgency_score m, topics = [topic m]\<rparr>"

definition group_update :: "message \<Rightarrow> group_row \<Rightarrow> group_row" where
  "group_update m r =
     r\<lparr>last_message := text m, last_time := mid m,
       max_urgency := max (max_urgency r) (urgency_score m),
       topics := (if topic m \<in> set (topics r) then topics r else topics r @ [topic m])\<rparr>"

fun group_add :: "message \<Rightarrow> group_row list \<Rightarrow> group_row list" where
  "group_add m [] = [group_new m]"
| "group_add m (r # rs) =
     (if g_id r = customer_id m then group_update m r # rs else r # group_add m rs)"

definition group_stage :: "message list \<Rightarrow> group_row list" where
  "group_stage docs = fold group_add docs []"

text \<open>
  \<open>{"$sort": {key: -1}}\<close> with the key \<open>max_urgency\<close> when the request's \<open>sort\<close> is \<open>"-urgency"\<close> and
  \<open>last_time\<close> otherwise: descending in that one field. The database promises no order
  for the documents that leave \<open>$group\<close> and none among documents with equal sort
  keys. That freedom is the parameter \<open>engine\<close>, the order in which the groups are
  handed on; the sort itself is then taken stable, which loses no possible outcome.
\<close>

definition sort_field :: "string \<Rightarrow> group_row \<Rightarrow> int" where
  "sort_field sort_arg r = (if sort_arg = ''-urgency'' then max_urgency r else int (last_time r))"

definition sort_stage :: "string \<Rightarrow> group_row list \<Rightarrow> group_row list" where
  "sort_stage sort_arg rows = sort_key (\<lambda>r. - sort_field sort_arg r) rows"

text \<open>
  \<open>{"$limit": limit}\<close>: the stage is documented as taking a positive 64-bit integer.
  The driver cannot encode an integer outside 64 bits (\<open>OverflowError\<close>, before
  anything is sent), and the database rejects a pipeline whose limit is not positive
  (\<open>OperationFailure\<close>). The pipeline is checked stage by stage before any document is
  read, so a rejected pattern in \<open>$match\<close> comes before a rejected limit.
\<close>

definition aggregate ::
  "(group_row list \<Rightarrow> group_row list) \<Rightarrow> (string \<Rightarrow> error + (string \<Rightarrow> bool))
     \<Rightarrow> string option \<Rightarrow> string \<Rightarrow> int \<Rightarrow> message list \<Rightarrow> error + group_row list" where
  "aggregate engine server q sort_arg limit docs =
     (if limit < - (2 ^ 63) \<or> 2 ^ 63 - 1 < limit then Inl OverflowError
      else (case match_stage server q docs of
              Inl e \<Rightarrow> Inl e
            | Inr survivors \<Rightarrow>
                if limit \<le> 0 then Inl OperationFailure
                else Inr (take (nat limit)
                            (sort_stage sort_arg (engine (group_stage survivors))))))"

subsection \<open>The response\<close>

record summary =
  out_customer_id :: string
  out_customer :: "customer option"
  out_last_message :: string
  out_max_urgency :: int
  out_topics :: "string list"

text \<open>
  \<open>db["customer"].find_one({"_id": ObjectId(it["_id"])}) if it.get("_id") else None\<close>:
  no lookup for an empty group key.
\<close>

definition find_customer :: "database \<Rightarrow> string \<Rightarrow> error + customer option" where
  "find_customer db key = (if key = [] then Inr None else customer_find_one db key)"

definition summary_of :: "group_row \<Rightarrow> customer option \<Rightarrow> summary" where
  "summary_of it cust =
     \<lparr>out_customer_id = g_id it, out_customer = cust,
      out_last_message = last_message it, out_max_urgency = max_urgency it,
      out_topics = concat (map (\<lambda>t. case t of None \<Rightarrow> [] | Some x \<Rightarrow> if x = [] then [] else [x])
                             (topics it))\<rparr>"

text \<open>The \<open>for it in items\<close> loop; the first exception ends the request.\<close>

fun build_out :: "database \<Rightarrow> group_row list \<Rightarrow> error + summary list" where
  "build_out db [] = Inr []"
| "build_out db (it # items) =
     (case find_customer db (g_id it) of
        Inl e \<Rightarrow> Inl e
      | Inr cust \<Rightarrow>
          (case build_out db items of
             Inl e \<Rightarrow> Inl e
           | Inr out \<Rightarrow> Inr (summary_of it cust # out)))"

definition conversations ::
  "(group_row list \<Rightarrow> group_row list) \<Rightarrow> database \<Rightarrow> string option \<Rightarrow> string \<Rightarrow> int
     \<Rightarrow> error + summary list" where
  "conversations engine db q sort_arg limit =
     (case aggregate engine (regex_server db) q sort_arg limit (message_coll db) of
        Inl e \<Rightarrow> Inl e
      | Inr items \<Rightarrow> build_out db items)"


subsection \<open>Notions used to state the properties\<close>

text \<open>A customer's group: the documents of that customer, in collection order.\<close>

definition group_of :: "string \<Rightarrow> message list \<Rightarrow> message list" where
  "group_of c docs = filter (\<lambda>m. customer_id m = c) docs"

text \<open>
  The document of a (non-empty) group with the greatest \<open>_id\<close>, the specification's
  \<open>created_order\<close>; among equal ones the later entry wins.
\<close>

definition greatest_created_order :: "message list \<Rightarrow> message" where
  "greatest_created_order grp =
     fold (\<lambda>m best. if mid best \<le> mid m then m else best) (tl grp) (hd grp)"


text \<open>A filter that leaves the request standing: none, or a pattern that is accepted.\<close>

definition filter_accepted ::
  "(string \<Rightarrow> error + (string \<Rightarrow> bool)) \<Rightarrow> string option \<Rightarrow> bool" where
  "filter_accepted server q =
     (case q of
        None \<Rightarrow> True
      | Some p \<Rightarrow> p = [] \<or> (case regex_i server p of Inl e \<Rightarrow> False | Inr matches \<Rightarrow> True))"

text \<open>The accumulators of one group, run over the whole group at once.\<close>

definition row_of :: "message list \<Rightarrow> group_row" where
  "row_of grp = fold group_update (tl grp) (group_new (hd grp))"

section \<open>WebSocket manager (main.py, ConnectionManager)\<close>

type_synonym websocket = nat

record 'a envelope =
  "type" :: string
  data :: 'a

record ConnectionManager =
  active :: "websocket list"

definition connect :: "websocket \<Rightarrow> ConnectionManager \<Rightarrow> ConnectionManager" where
  "connect ws mgr = mgr\<lparr>active := active mgr @ [ws]\<rparr>"

definition disconnect :: "websocket \<Rightarrow> ConnectionManager \<Rightarrow> ConnectionManager" where
  "disconnect ws mgr =
     (if ws \<in> set (active mgr) then mgr\<lparr>active := remove1 ws (active mgr)\<rparr> else mgr)"

definition broadcast_step ::
  "(websocket \<Rightarrow> 'a envelope \<Rightarrow> bool) \<Rightarrow> 'a envelope \<Rightarrow> websocket
     \<Rightarrow> ConnectionManager \<times> (websocket \<times> 'a envelope) list
     \<Rightarrow> ConnectionManager \<times> (websocket \<times> 'a envelope) list" where
  "broadcast_step send_json payload ws st =
     (case st of (mgr, received) \<Rightarrow>
        if send_json ws payload then (mgr, received @ [(ws, payload)])
        else (disconnect ws mgr, received))"

definition broadcast ::
  "(websocket \<Rightarrow> 'a envelope \<Rightarrow> bool) \<Rightarrow> 'a \<Rightarrow> ConnectionManager
     \<Rightarrow> ConnectionManager \<times> (websocket \<times> 'a envelope) list" where
  "broadcast send_json message mgr =
     (let payload = \<lparr>type = ''message_created'', data = message\<rparr>
      in fold (broadcast_step send_json payload) (active mgr) (mgr, []))"

section \<open>Creating a message (main.py, create_message)\<close>

record CreateMessage =
  payload_customer_id :: string
  payload_text :: string
  payload_channel :: string
  payload_direction :: string

text \<open>The module-level \<open>db\<close> and \<open>manager\<close>.\<close>

record app_state =
  db :: database
  manager :: ConnectionManager

text \<open>
  Modelled from the spec: \<open>create_document\<close> (database.py is not among the sources)
  stores the record it is given under an identifier assigned by the storage, as the
  newest document of the collection. The identifier is the parameter \<open>new_id\<close>.
\<close>

definition create_document :: "nat \<Rightarrow> message_data \<Rightarrow> database \<Rightarrow> database" where
  "create_document new_id d dbs =
     dbs\<lparr>message_coll := message_coll dbs @
       [\<lparr>customer_id = customer_id d, text = text d, channel = channel d,
         direction = direction d, status = status d, urgency_score = urgency_score d,
         topic = topic d, mid = new_id\<rparr>]\<rparr>"

definition find_one_message :: "database \<Rightarrow> nat \<Rightarrow> message option" where
  "find_one_message dbs i = find (\<lambda>m. mid m = i) (message_coll dbs)"

text \<open>
  \<open>create_message\<close> with the classifier as a parameter, so that "the classifier is not
  called" can be said: the result is then the same for every classifier. \<open>serialize\<close>
  renames \<open>_id\<close> and prints dates, and hands a missing document on as it is; the
  document read back is therefore passed on unchanged, as an option. The function
  returns the response, the new state, and what each observer received.
\<close>

definition create_message_with ::
  "(string \<Rightarrow> int \<times> string option) \<Rightarrow> nat \<Rightarrow> (websocket \<Rightarrow> message option envelope \<Rightarrow> bool)
     \<Rightarrow> CreateMessage \<Rightarrow> app_state
     \<Rightarrow> message option \<times> app_state \<times> (websocket \<times> message option envelope) list" where
  "create_message_with classify new_id send_json payload st =
     (let (urgency, tp) =
            (if payload_direction payload = ''inbound'' then classify (payload_text payload)
             else (0, None));
          d = \<lparr>customer_id = payload_customer_id payload, text = payload_text payload,
               channel = payload_channel payload, direction = payload_direction payload,
               status = (if payload_direction payload = ''inbound'' then ''open'' else ''sent''),
               urgency_score = urgency, topic = tp\<rparr>;
          dbs = create_document new_id d (db st);
          serialized = find_one_message dbs new_id;
          (mgr, received) = broadcast send_json serialized (manager st)
      in (serialized, \<lparr>db = dbs, manager = mgr\<rparr>, received))"

definition create_message ::
  "nat \<Rightarrow> (websocket \<Rightarrow> message option envelope \<Rightarrow> bool) \<Rightarrow> CreateMessage \<Rightarrow> app_state
     \<Rightarrow> message option \<times> app_state \<times> (websocket \<times> message option envelope) list" where
  "create_message = create_message_with score_urgency"

subsection \<open>Stored documents used in the examples\<close>

text \<open>
  A database holding the given messages and no customer document (every lookup finds
  nothing), on a server that rejects the patterns handed to \<open>regex_server\<close>. Then the
  document that \<open>create_message\<close> stores for an inbound payload with text \<open>t\<close> of
  customer \<open>c\<close>, and the one it stores for an outbound payload, under identifier \<open>i\<close>.
\<close>

definition example_db :: "message list \<Rightarrow> database" where
  "example_db docs =
     \<lparr>message_coll = docs, customer_find_one = (\<lambda>key. Inr None),
      regex_server = (\<lambda>p. Inl OperationFailure)\<rparr>"

definition stored_inbound :: "nat \<Rightarrow> string \<Rightarrow> string \<Rightarrow> message" where
  "stored_inbound i c t =
     \<lparr>customer_id = c, text = t, channel = ''web'', direction = ''inbound'', status = ''open'',
      urgency_score = fst (score_urgency t), topic = snd (score_urgency t), mid = i\<rparr>"

definition stored_outbound :: "nat \<Rightarrow> string \<Rightarrow> string \<Rightarrow> message" where
  "stored_outbound i c t =
     \<lparr>customer_id = c, text = t, channel = ''web'', direction = ''outbound'', status = ''sent'',
      urgency_score = 0, topic = None, mid = i\<rparr>"

section \<open>Properties of the classifier\<close>

lemma hits_of_length: "hits_of kws t = int (length (filter (\<lambda>kw. sublist kw t) kws))"
  unfolding hits_of_def by (induction kws) auto

lemma hits_of_nonneg: "0 \<le> hits_of kws t"
  by (simp add: hits_of_length)

lemma hits_of_zero_iff: "hits_of kws t = 0 \<longleftrightarrow> \<not> list_ex (\<lambda>kw. sublist kw t) kws"
  by (simp add: hits_of_length list_ex_iff filter_empty_conv)

lemma bucket_step_fst:
  "fst (bucket_step t b (s, tp)) = s + spec_contribution (snd b) t"
  by (cases b) (simp add: bucket_step_def spec_contribution_def spec_count_def hits_of_length Let_def)

lemma bucket_step_snd:
  "snd (bucket_step t b (s, tp)) =
     (case tp of Some x \<Rightarrow> Some x
      | None \<Rightarrow> if list_ex (\<lambda>kw. sublist kw t) (snd b) then Some (fst b) else None)"
  by (cases b) (simp add: bucket_step_def hits_of_zero_iff Let_def split: option.splits)

lemma fold_bucket_step_fst:
  "fst (fold (bucket_step t) bs st) = fst st + (\<Sum>b\<leftarrow>bs. spec_contribution (snd b) t)"
proof (induction bs arbitrary: st)
  case Nil
  show ?case by simp
next
  case (Cons b bs)
  obtain s tp where st: "st = (s, tp)" by (cases st)
  show ?case
    by (simp add: Cons.IH st bucket_step_fst)
qed

lemma fold_bucket_step_snd:
  "snd (fold (bucket_step t) bs st) =
     (case snd st of Some x \<Rightarrow> Some x
      | None \<Rightarrow> map_option fst (find (\<lambda>b. list_ex (\<lambda>kw. sublist kw t) (snd b)) bs))"
proof (induction bs arbitrary: st)
  case Nil
  show ?case by (simp split: option.splits)
next
  case (Cons b bs)
  obtain s tp where st: "st = (s, tp)" by (cases st)
  show ?case
    by (simp add: Cons.IH st bucket_step_snd split: option.splits)
qed

lemma spec_contribution_nonneg: "0 \<le> spec_contribution kws t"
  by (simp add: spec_contribution_def)

lemma sum_contribution_nonneg: "0 \<le> (\<Sum>b\<leftarrow>bs. spec_contribution (snd b) t)"
  by (induction bs) (simp_all add: spec_contribution_nonneg)

lemma score_urgency_fst:
  "fst (score_urgency txt) =
     min ((\<Sum>b\<leftarrow>URGENT_KEYWORDS. spec_contribution (snd b) (lower txt))
          + (if list_ex (\<lambda>w. sublist w (lower txt)) EXTRA_URGENT then 20 else 0)
          + (if sublist ''when'' (lower txt) \<and>
                (sublist ''loan'' (lower txt) \<or> sublist ''disbur'' (lower txt)
                 \<or> sublist ''approved'' (lower txt))
             then 20 else 0)) 100"
proof -
  obtain s tp where f: "fold (bucket_step (lower txt)) URGENT_KEYWORDS (0, None) = (s, tp)"
    by (cases "fold (bucket_step (lower txt)) URGENT_KEYWORDS (0, None)")
  have s: "s = (\<Sum>b\<leftarrow>URGENT_KEYWORDS. spec_contribution (snd b) (lower txt))"
    using fold_bucket_step_fst [of "lower txt" URGENT_KEYWORDS "(0, None)"] f by simp
  show ?thesis
    unfolding score_urgency_def Let_def f by (auto simp: s)
qed

lemma score_urgency_snd: "snd (score_urgency txt) = first_hit_bucket (lower txt)"
proof -
  obtain s tp where f: "fold (bucket_step (lower txt)) URGENT_KEYWORDS (0, None) = (s, tp)"
    by (cases "fold (bucket_step (lower txt)) URGENT_KEYWORDS (0, None)")
  have "tp = first_hit_bucket (lower txt)"
    using fold_bucket_step_snd [of "lower txt" URGENT_KEYWORDS "(0, None)"] f
    by (simp add: first_hit_bucket_def)
  then show ?thesis
    unfolding score_urgency_def Let_def f by simp
qed


text \<open>
  Claim C1. For every input text the urgency returned by \<open>score_urgency\<close> is the total
  described by the specification: for the buckets loan, account, kyc, payment in that
  order, a bucket whose count of keywords occurring in the lower-cased text is positive
  contributes \<open>30 + 10 * (count - 1)\<close>; 20 more if one of urgent, asap, immediately,
  now, help occurs; 20 more if "when" occurs together with "loan", "disbur" or
  "approved" (on top of the loan bucket's contribution); the sum clamped at 100.
\<close>

theorem score_urgency_matches_spec_urgency:
  "fst (score_urgency txt) = spec_urgency txt
   \<and> map fst spec_buckets = [''loan'', ''account'', ''kyc'', ''payment'']"
proof -
  have b: "spec_buckets = URGENT_KEYWORDS"
    by (simp add: spec_buckets_def URGENT_KEYWORDS_def)
  have "fst (score_urgency txt) = spec_urgency txt"
    unfolding score_urgency_fst spec_urgency_def Let_def b EXTRA_URGENT_def
    by (simp add: min.commute)
  moreover have "map fst spec_buckets = [''loan'', ''account'', ''kyc'', ''payment'']"
    by (simp add: spec_buckets_def)
  ultimately show ?thesis by simp
qed

theorem score_urgency_matches_spec_urgency_witness:
  "fst (score_urgency ''URGENT: when will my Loan be approved'') = 80
   \<and> spec_urgency ''URGENT: when will my Loan be approved'' = 80"
proof -
  have "fst (score_urgency ''URGENT: when will my Loan be approved'') = 80"
    by code_simp
  then show ?thesis
    using score_urgency_matches_spec_urgency [of "''URGENT: when will my Loan be approved''"]
    by simp
qed

text \<open>
  Claim C2, as stated: on the input "loan loan loan" the classifier returns topic loan
  with urgency 50, counting each occurrence of the repeated keyword. The code counts
  keywords of the bucket that occur, not occurrences: only the keyword "loan" occurs,
  so there is one hit and the urgency is 30.
\<close>

theorem loan_loan_loan_not_50:
  "score_urgency ''loan loan loan'' \<noteq> (50, Some ''loan'')"
  by code_simp

text \<open>
  Claim C2, amended: on the input "loan loan loan" the classifier returns topic loan
  with urgency 30 (one keyword of the loan bucket occurs; repetitions of it do not
  count again).
\<close>

theorem loan_loan_loan_is_30:
  "score_urgency ''loan loan loan'' = (30, Some ''loan'')
   \<and> hits_of (the (map_of URGENT_KEYWORDS ''loan'')) (lower ''loan loan loan'') = 1"
  by code_simp

text \<open>
  Claim C3. For every input text the topic returned by \<open>score_urgency\<close> is the label of
  the first bucket, in the order loan, account, kyc, payment, with at least one keyword
  hit, whatever the hit counts of later buckets are, and it is absent when no bucket has
  a hit.
\<close>

theorem topic_is_first_hit_bucket:
  "snd (score_urgency txt) =
     map_option fst
       (find (\<lambda>b. list_ex (\<lambda>kw. sublist kw (lower txt)) (snd b)) URGENT_KEYWORDS)
   \<and> map fst URGENT_KEYWORDS = [''loan'', ''account'', ''kyc'', ''payment'']
   \<and> (snd (score_urgency txt) = None \<longleftrightarrow>
        list_all (\<lambda>b. hits_of (snd b) (lower txt) = 0) URGENT_KEYWORDS)"
proof -
  have 1: "snd (score_urgency txt) =
     map_option fst
       (find (\<lambda>b. list_ex (\<lambda>kw. sublist kw (lower txt)) (snd b)) URGENT_KEYWORDS)"
    by (simp add: score_urgency_snd first_hit_bucket_def)
  have 2: "map fst URGENT_KEYWORDS = [''loan'', ''account'', ''kyc'', ''payment'']"
    by (simp add: URGENT_KEYWORDS_def)
  have 3: "snd (score_urgency txt) = None \<longleftrightarrow>
        list_all (\<lambda>b. hits_of (snd b) (lower txt) = 0) URGENT_KEYWORDS"
    unfolding 1 by (auto simp: find_None_iff list_all_iff hits_of_zero_iff)
  from 1 2 3 show ?thesis by simp
qed

theorem topic_is_first_hit_bucket_witness:
  "snd (score_urgency ''please update my loan account'') = Some ''loan''
   \<and> hits_of (the (map_of URGENT_KEYWORDS ''loan'')) ''please update my loan account'' = 1
   \<and> hits_of (the (map_of URGENT_KEYWORDS ''account'')) ''please update my loan account'' = 2
   \<and> snd (score_urgency ''hello'') = None"
proof -
  have a: "map_option fst
       (find (\<lambda>b. list_ex (\<lambda>kw. sublist kw (lower ''please update my loan account'')) (snd b))
          URGENT_KEYWORDS) = Some ''loan''"
    by code_simp
  have b: "hits_of (the (map_of URGENT_KEYWORDS ''loan'')) ''please update my loan account'' = 1"
    by code_simp
  have c: "hits_of (the (map_of URGENT_KEYWORDS ''account'')) ''please update my loan account'' = 2"
    by code_simp
  have d: "list_all (\<lambda>b. hits_of (snd b) (lower ''hello'') = 0) URGENT_KEYWORDS"
    by code_simp
  have "snd (score_urgency ''please update my loan account'') =
     map_option fst
       (find (\<lambda>b. list_ex (\<lambda>kw. sublist kw (lower ''please update my loan account'')) (snd b))
          URGENT_KEYWORDS)"
    using topic_is_first_hit_bucket [of "''please update my loan account''"]
    by (rule conjunct1)
  then have e: "snd (score_urgency ''please update my loan account'') = Some ''loan''"
    by (simp only: a)
  have f: "snd (score_urgency ''hello'') = None"
    using topic_is_first_hit_bucket [of "''hello''"] d by blast
  from b c e f show ?thesis by (simp only: simp_thms)
qed

text \<open>
  Claim C4. For every input text the urgency returned by \<open>score_urgency\<close> lies between
  0 and 100: the total is clamped above at 100, and it is non-negative because every
  contribution is.
\<close>

theorem score_urgency_in_range:
  "0 \<le> fst (score_urgency txt) \<and> fst (score_urgency txt) \<le> 100"
proof -
  have "0 \<le> (\<Sum>b\<leftarrow>URGENT_KEYWORDS. spec_contribution (snd b) (lower txt))"
    by (rule sum_contribution_nonneg)
  then show ?thesis
    unfolding score_urgency_fst by simp
qed

section \<open>Properties of the WebSocket manager\<close>

lemma disconnect_remove1: "disconnect ws mgr = mgr\<lparr>active := remove1 ws (active mgr)\<rparr>"
  by (simp add: disconnect_def remove1_idem)

lemma broadcast_fold:
  "fold (broadcast_step send_json payload) xs (mgr, received) =
     (mgr\<lparr>active := fold (\<lambda>ws a. if send_json ws payload then a else remove1 ws a) xs (active mgr)\<rparr>,
      received @ map (\<lambda>ws. (ws, payload)) (filter (\<lambda>ws. send_json ws payload) xs))"
proof (induction xs arbitrary: mgr received)
  case Nil
  show ?case by simp
next
  case (Cons x xs)
  have step: "broadcast_step send_json payload x (mgr, received) =
      (if send_json x payload then (mgr, received @ [(x, payload)])
       else (mgr\<lparr>active := remove1 x (active mgr)\<rparr>, received))"
    by (simp add: broadcast_step_def disconnect_remove1)
  show ?case
    by (simp add: step Cons.IH)
qed

lemma remove_failed:
  "\<forall>x\<in>set pre. ok x \<Longrightarrow>
   fold (\<lambda>ws a. if ok ws then a else remove1 ws a) xs (pre @ xs) = pre @ filter ok xs"
proof (induction xs arbitrary: pre)
  case Nil
  show ?case by simp
next
  case (Cons x xs)
  show ?case
  proof (cases "ok x")
    case True
    with Cons.prems have "\<forall>y\<in>set (pre @ [x]). ok y" by simp
    from Cons.IH [OF this] True show ?thesis by simp
  next
    case False
    with Cons.prems have "x \<notin> set pre" by blast
    then have "remove1 x (pre @ x # xs) = pre @ xs"
      by (simp add: remove1_append)
    with Cons.IH [OF Cons.prems] False show ?thesis by simp
  qed
qed

lemma broadcast_result:
  "broadcast send_json message mgr =
     (mgr\<lparr>active := filter (\<lambda>ws. send_json ws \<lparr>type = ''message_created'', data = message\<rparr>) (active mgr)\<rparr>,
      map (\<lambda>ws. (ws, \<lparr>type = ''message_created'', data = message\<rparr>))
        (filter (\<lambda>ws. send_json ws \<lparr>type = ''message_created'', data = message\<rparr>) (active mgr)))"
  using remove_failed [of "[]" "\<lambda>ws. send_json ws \<lparr>type = ''message_created'', data = message\<rparr>" "active mgr"]
  by (simp add: broadcast_def broadcast_fold Let_def)

lemma filter_map_distinct_one:
  "distinct xs \<Longrightarrow> ws \<in> set xs \<Longrightarrow> filter (\<lambda>d. fst d = ws) (map (\<lambda>w. (w, p)) xs) = [(ws, p)]"
  by (induction xs) (auto simp: filter_empty_conv)

text \<open>
  Claim C8. In every broadcast over a registry in which each observer is registered
  once, each observer whose send succeeds receives exactly one envelope, with \<open>type\<close>
  the string "message_created" and \<open>data\<close> the message handed to \<open>broadcast\<close>,
  whatever happens to the other observers; each observer whose send fails receives
  nothing, is removed from the registry, and so receives nothing in any later broadcast;
  nobody else is removed.
\<close>

theorem broadcast_delivers_once_and_drops_failed:
  assumes "distinct (active mgr)"
  shows "let payload = \<lparr>type = ''message_created'', data = message\<rparr>;
             mgr' = fst (broadcast send_json message mgr);
             received = snd (broadcast send_json message mgr)
         in (\<forall>ws\<in>set (active mgr). send_json ws payload \<longrightarrow>
               filter (\<lambda>d. fst d = ws) received = [(ws, payload)] \<and> ws \<in> set (active mgr'))
          \<and> (\<forall>ws\<in>set (active mgr). \<not> send_json ws payload \<longrightarrow>
               ws \<notin> fst ` set received \<and> ws \<notin> set (active mgr')
               \<and> (\<forall>send_json2 message2. ws \<notin> fst ` set (snd (broadcast send_json2 message2 mgr'))))
          \<and> active mgr' = filter (\<lambda>ws. send_json ws payload) (active mgr)"
proof -
  let ?p = "\<lparr>type = ''message_created'', data = message\<rparr>"
  let ?ok = "\<lambda>ws. send_json ws ?p"
  have d: "distinct (filter ?ok (active mgr))" using assms by simp
  have 1: "filter (\<lambda>d. fst d = ws) (snd (broadcast send_json message mgr)) = [(ws, ?p)]"
    if "ws \<in> set (active mgr)" "?ok ws" for ws
    using that d by (simp add: broadcast_result filter_map_distinct_one)
  have 2: "ws \<notin> fst ` set (snd (broadcast send_json2 message2 (fst (broadcast send_json message mgr))))"
    if "\<not> ?ok ws" for ws and send_json2 :: "websocket \<Rightarrow> 'b envelope \<Rightarrow> bool" and message2
    using that by (auto simp: broadcast_result)
  have 3: "ws \<notin> fst ` set (snd (broadcast send_json message mgr))" if "\<not> ?ok ws" for ws
    using that by (auto simp: broadcast_result)
  show ?thesis
    unfolding Let_def using 1 2 3 by (auto simp: broadcast_result)
qed


theorem broadcast_delivers_once_and_drops_failed_witness:
  "filter (\<lambda>d. fst d = 1)
      (snd (broadcast (\<lambda>ws p. ws \<noteq> 2) ''msg'' \<lparr>active = [1, 2, 3]\<rparr>))
     = [(1, \<lparr>type = ''message_created'', data = ''msg''\<rparr>)]
   \<and> filter (\<lambda>d. fst d = 3)
      (snd (broadcast (\<lambda>ws p. ws \<noteq> 2) ''msg'' \<lparr>active = [1, 2, 3]\<rparr>))
     = [(3, \<lparr>type = ''message_created'', data = ''msg''\<rparr>)]
   \<and> 2 \<notin> set (active (fst (broadcast (\<lambda>ws p. ws \<noteq> 2) ''msg'' \<lparr>active = [1, 2, 3]\<rparr>)))
   \<and> active (fst (broadcast (\<lambda>ws p. ws \<noteq> 2) ''msg'' \<lparr>active = [1, 2, 3]\<rparr>)) = [1, 3]"
proof -
  have d: "distinct (active \<lparr>active = [1, 2, 3 :: nat]\<rparr>)" by simp
  show ?thesis
    using broadcast_delivers_once_and_drops_failed
      [OF d, where send_json = "\<lambda>ws p. ws \<noteq> 2" and message = "''msg''"]
    unfolding Let_def by auto
qed

section \<open>Properties of message creation\<close>

lemma create_message_with_db:
  "message_coll (db (fst (snd (create_message_with classify new_id send_json payload st)))) =
     message_coll (db st) @
       [\<lparr>customer_id = payload_customer_id payload, text = payload_text payload,
         channel = payload_channel payload, direction = payload_direction payload,
         status = (if payload_direction payload = ''inbound'' then ''open'' else ''sent''),
         urgency_score =
           (if payload_direction payload = ''inbound'' then fst (classify (payload_text payload))
            else 0),
         topic =
           (if payload_direction payload = ''inbound'' then snd (classify (payload_text payload))
            else None),
         mid = new_id\<rparr>]"
  by (simp add: create_message_with_def create_document_def Let_def split_def)

lemma create_message_with_not_inbound:
  "payload_direction payload \<noteq> ''inbound'' \<Longrightarrow>
   create_message_with classify new_id send_json payload st =
   create_message_with classify2 new_id send_json payload st"
  by (simp add: create_message_with_def)

text \<open>
  Claim C10. \<open>create_message\<close> stores one new record. When the payload's direction
  is any string other than "inbound", the record has urgency 0, no topic and status
  "sent", and the classifier is not called (the outcome is the same for every
  classifier). When the direction is exactly "inbound", the record has the urgency and
  topic that \<open>score_urgency\<close> gives for the text, and status "open".
\<close>

theorem create_message_classifies_inbound_only:
  "let st' = fst (snd (create_message new_id send_json payload st));
       stored = last (message_coll (db st'))
   in message_coll (db st') = message_coll (db st) @ [stored]
    \<and> (payload_direction payload \<noteq> ''inbound'' \<longrightarrow>
         urgency_score stored = 0 \<and> topic stored = None \<and> status stored = ''sent''
         \<and> (\<forall>classify. create_message_with classify new_id send_json payload st
                        = create_message new_id send_json payload st))
    \<and> (payload_direction payload = ''inbound'' \<longrightarrow>
         (urgency_score stored, topic stored) = score_urgency (payload_text payload)
         \<and> status stored = ''open'')"
proof -
  let ?st' = "fst (snd (create_message new_id send_json payload st))"
  let ?stored = "last (message_coll (db ?st'))"
  have coll: "message_coll (db ?st') = message_coll (db st) @ [?stored]"
    by (simp add: create_message_def create_message_with_db)
  have out: "urgency_score ?stored = 0 \<and> topic ?stored = None \<and> status ?stored = ''sent''"
    if "payload_direction payload \<noteq> ''inbound''"
    using that by (simp add: create_message_def create_message_with_db)
  have indep: "\<forall>classify. create_message_with classify new_id send_json payload st
                        = create_message new_id send_json payload st"
    if "payload_direction payload \<noteq> ''inbound''"
    unfolding create_message_def
    using create_message_with_not_inbound [OF that] by blast
  have inb: "(urgency_score ?stored, topic ?stored) = score_urgency (payload_text payload)
         \<and> status ?stored = ''open''"
    if "payload_direction payload = ''inbound''"
    using that by (simp add: create_message_def create_message_with_db)
  from coll out indep inb show ?thesis
    unfolding Let_def by blast
qed


theorem create_message_classifies_inbound_only_witness:
  "(let stored = last (message_coll (db (fst (snd (create_message 7 (\<lambda>ws p. True)
        \<lparr>payload_customer_id = ''5f0000000000000000000001'', payload_text = ''urgent loan'',
          payload_channel = ''web'', payload_direction = ''Inbound''\<rparr>
        \<lparr>db = example_db [], manager = \<lparr>active = []\<rparr>\<rparr>)))))
    in urgency_score stored = 0 \<and> topic stored = None \<and> status stored = ''sent'')
   \<and> (let stored = last (message_coll (db (fst (snd (create_message 7 (\<lambda>ws p. True)
        \<lparr>payload_customer_id = ''5f0000000000000000000001'', payload_text = ''urgent loan'',
          payload_channel = ''web'', payload_direction = ''inbound''\<rparr>
        \<lparr>db = example_db [], manager = \<lparr>active = []\<rparr>\<rparr>)))))
    in urgency_score stored = 50 \<and> topic stored = Some ''loan'' \<and> status stored = ''open'')"
proof -
  let ?out = "\<lparr>payload_customer_id = ''5f0000000000000000000001'',
                 payload_text = ''urgent loan'', payload_channel = ''web'',
                 payload_direction = ''Inbound''\<rparr>"
  let ?inb = "\<lparr>payload_customer_id = ''5f0000000000000000000001'',
                 payload_text = ''urgent loan'', payload_channel = ''web'',
                 payload_direction = ''inbound''\<rparr>"
  let ?st = "\<lparr>db = example_db [], manager = \<lparr>active = []\<rparr>\<rparr>"
  have s: "score_urgency ''urgent loan'' = (50, Some ''loan'')"
    by code_simp
  have d1: "payload_direction ?out \<noteq> ''inbound''" by simp
  have d2: "payload_direction ?inb = ''inbound''" by simp
  have t2: "payload_text ?inb = ''urgent loan''" by simp
  have 1: "urgency_score (last (message_coll (db (fst (snd (create_message 7 (\<lambda>ws p. True) ?out ?st)))))) = 0
        \<and> topic (last (message_coll (db (fst (snd (create_message 7 (\<lambda>ws p. True) ?out ?st)))))) = None
        \<and> status (last (message_coll (db (fst (snd (create_message 7 (\<lambda>ws p. True) ?out ?st)))))) = ''sent''"
    using create_message_classifies_inbound_only
        [where new_id = 7 and send_json = "\<lambda>ws p. True" and payload = ?out and st = ?st] d1
    unfolding Let_def by blast
  have "(urgency_score (last (message_coll (db (fst (snd (create_message 7 (\<lambda>ws p. True) ?inb ?st)))))),
         topic (last (message_coll (db (fst (snd (create_message 7 (\<lambda>ws p. True) ?inb ?st)))))))
          = score_urgency (payload_text ?inb)
        \<and> status (last (message_coll (db (fst (snd (create_message 7 (\<lambda>ws p. True) ?inb ?st)))))) = ''open''"
    using create_message_classifies_inbound_only
        [where new_id = 7 and send_json = "\<lambda>ws p. True" and payload = ?inb and st = ?st] d2
    unfolding Let_def by blast
  then have 2: "urgency_score (last (message_coll (db (fst (snd (create_message 7 (\<lambda>ws p. True) ?inb ?st)))))) = 50
        \<and> topic (last (message_coll (db (fst (snd (create_message 7 (\<lambda>ws p. True) ?inb ?st)))))) = Some ''loan''
        \<and> status (last (message_coll (db (fst (snd (create_message 7 (\<lambda>ws p. True) ?inb ?st)))))) = ''open''"
    unfolding t2 s by simp
  from 1 2 show ?thesis
    unfolding Let_def by blast
qed

section \<open>Properties of the conversations aggregation\<close>

subsection \<open>The text filter on patterns without regular-expression syntax\<close>







subsection \<open>The grouping stage\<close>

lemma g_id_group_update [simp]: "g_id (group_update m r) = g_id r"
  by (simp add: group_update_def)

lemma g_id_group_new [simp]: "g_id (group_new m) = customer_id m"
  by (simp add: group_new_def)

lemma group_add_ids:
  "g_id ` set (group_add m rs) = insert (customer_id m) (g_id ` set rs)"
  by (induction rs) auto

lemma group_add_distinct:
  "distinct (map g_id rs) \<Longrightarrow> distinct (map g_id (group_add m rs))"
proof (induction rs)
  case Nil
  show ?case by simp
next
  case (Cons r rs)
  then show ?case
    by (auto simp: group_add_ids)
qed

lemma group_add_cases:
  assumes "distinct (map g_id rs)" and "r' \<in> set (group_add m rs)"
  shows "(r' \<in> set rs \<and> g_id r' \<noteq> customer_id m)
       \<or> (\<exists>r\<in>set rs. g_id r = customer_id m \<and> r' = group_update m r)
       \<or> (customer_id m \<notin> g_id ` set rs \<and> r' = group_new m)"
  using assms
proof (induction rs)
  case Nil
  then show ?case by simp
next
  case (Cons r rs)
  show ?case
  proof (cases "g_id r = customer_id m")
    case True
    with Cons.prems show ?thesis by (auto simp: image_iff)
  next
    case False
    with Cons.prems have "r' = r \<or> r' \<in> set (group_add m rs)" by auto
    then show ?thesis
    proof
      assume "r' = r"
      with False show ?thesis by simp
    next
      assume "r' \<in> set (group_add m rs)"
      with Cons.IH Cons.prems(1) False show ?thesis by auto
    qed
  qed
qed

lemma row_of_single: "row_of [m] = group_new m"
  by (simp add: row_of_def)

lemma row_of_snoc: "grp \<noteq> [] \<Longrightarrow> row_of (grp @ [m]) = group_update m (row_of grp)"
  by (cases grp) (simp_all add: row_of_def)

lemma group_of_snoc:
  "group_of c (docs @ [m]) = (if customer_id m = c then group_of c docs @ [m] else group_of c docs)"
  by (simp add: group_of_def)

lemma group_of_empty_iff: "group_of c docs = [] \<longleftrightarrow> c \<notin> customer_id ` set docs"
  by (auto simp: group_of_def filter_empty_conv)

lemma group_stage_snoc: "group_stage (docs @ [m]) = group_add m (group_stage docs)"
  by (simp add: group_stage_def)

lemma group_stage_inv:
  "distinct (map g_id (group_stage docs))
   \<and> g_id ` set (group_stage docs) = customer_id ` set docs
   \<and> (\<forall>r\<in>set (group_stage docs). r = row_of (group_of (g_id r) docs))"
proof (induction docs rule: rev_induct)
  case Nil
  show ?case by (simp add: group_stage_def)
next
  case (snoc m docs)
  let ?rs = "group_stage docs"
  from snoc have d: "distinct (map g_id ?rs)"
    and ids: "g_id ` set ?rs = customer_id ` set docs"
    and rows: "\<And>r. r \<in> set ?rs \<Longrightarrow> r = row_of (group_of (g_id r) docs)"
    by auto
  have 1: "distinct (map g_id (group_stage (docs @ [m])))"
    by (simp add: group_stage_snoc group_add_distinct d)
  have 2: "g_id ` set (group_stage (docs @ [m])) = customer_id ` set (docs @ [m])"
    by (simp add: group_stage_snoc group_add_ids ids)
  have 3: "r' = row_of (group_of (g_id r') (docs @ [m]))"
    if "r' \<in> set (group_stage (docs @ [m]))" for r'
  proof -
    from that have "r' \<in> set (group_add m ?rs)" by (simp add: group_stage_snoc)
    from group_add_cases [OF d this] show ?thesis
    proof (elim disjE conjE bexE)
      assume "r' \<in> set ?rs" "g_id r' \<noteq> customer_id m"
      then show ?thesis using rows [of r'] by (simp add: group_of_snoc)
    next
      fix r assume r: "r \<in> set ?rs" "g_id r = customer_id m" "r' = group_update m r"
      from r(1,2) ids have "group_of (customer_id m) docs \<noteq> []"
        by (metis group_of_empty_iff image_eqI)
      with r rows [of r] show ?thesis
        by (simp add: group_of_snoc row_of_snoc)
    next
      assume n: "customer_id m \<notin> g_id ` set ?rs" "r' = group_new m"
      with ids have "group_of (customer_id m) docs = []"
        by (simp add: group_of_empty_iff)
      with n show ?thesis
        by (simp add: group_of_snoc row_of_single)
    qed
  qed
  from 1 2 3 show ?case by blast
qed

lemma fold_update_fields:
  "last_message (fold group_update ms r) = (if ms = [] then last_message r else text (last ms))
   \<and> last_time (fold group_update ms r) = (if ms = [] then last_time r else mid (last ms))
   \<and> max_urgency (fold group_update ms r) = fold max (map urgency_score ms) (max_urgency r)
   \<and> g_id (fold group_update ms r) = g_id r"
proof (induction ms arbitrary: r)
  case Nil
  show ?case by simp
next
  case (Cons m ms)
  have u: "last_message (group_update m r) = text m" "last_time (group_update m r) = mid m"
    "max_urgency (group_update m r) = max (urgency_score m) (max_urgency r)"
    by (simp_all add: group_update_def max.commute)
  show ?case
    using Cons.IH [of "group_update m r"] by (simp add: u)
qed

lemma row_of_fields:
  assumes "grp \<noteq> []"
  shows "last_message (row_of grp) = text (last grp)"
    and "last_time (row_of grp) = mid (last grp)"
    and "max_urgency (row_of grp) = Max (urgency_score ` set grp)"
    and "g_id (row_of grp) = customer_id (hd grp)"
proof -
  from assms obtain m ms where g: "grp = m # ms" by (cases grp) auto
  have n: "last_message (group_new m) = text m" "last_time (group_new m) = mid m"
    "max_urgency (group_new m) = urgency_score m"
    by (simp_all add: group_new_def)
  show "last_message (row_of grp) = text (last grp)"
    using fold_update_fields [of ms "group_new m"] by (simp add: g row_of_def n)
  show "last_time (row_of grp) = mid (last grp)"
    using fold_update_fields [of ms "group_new m"] by (simp add: g row_of_def n)
  have "max_urgency (row_of grp) = fold max (map urgency_score ms) (urgency_score m)"
    using fold_update_fields [of ms "group_new m"] by (simp add: g row_of_def n)
  also have "\<dots> = Max (set (urgency_score m # map urgency_score ms))"
    by (rule Max.set_eq_fold [symmetric])
  finally show "max_urgency (row_of grp) = Max (urgency_score ` set grp)"
    by (simp add: g)
  show "g_id (row_of grp) = customer_id (hd grp)"
    using fold_update_fields [of ms "group_new m"] by (simp add: g row_of_def)
qed


lemma group_stage_row:
  assumes "r \<in> set (group_stage docs)"
  shows "group_of (g_id r) docs \<noteq> []"
    and "last_message r = text (last (group_of (g_id r) docs))"
    and "last_time r = mid (last (group_of (g_id r) docs))"
    and "max_urgency r = Max (urgency_score ` set (group_of (g_id r) docs))"
proof -
  from group_stage_inv [of docs] assms
  have ids: "g_id r \<in> customer_id ` set docs"
    and row: "r = row_of (group_of (g_id r) docs)"
    by auto
  from ids show ne: "group_of (g_id r) docs \<noteq> []"
    by (simp add: group_of_empty_iff)
  show "last_message r = text (last (group_of (g_id r) docs))"
    using row_of_fields(1) [OF ne] row by simp
  show "last_time r = mid (last (group_of (g_id r) docs))"
    using row_of_fields(2) [OF ne] row by simp
  show "max_urgency r = Max (urgency_score ` set (group_of (g_id r) docs))"
    using row_of_fields(3) [OF ne] row by simp
qed

subsection \<open>Creation order\<close>

lemma fold_pick_sorted:
  "sorted_wrt (<) (map mid (b # ms)) \<Longrightarrow>
   fold (\<lambda>m best. if mid best \<le> mid m then m else best) ms b = last (b # ms)"
proof (induction ms arbitrary: b)
  case Nil
  show ?case by simp
next
  case (Cons m ms)
  from Cons.prems have lt: "mid b < mid m" and s: "sorted_wrt (<) (map mid (m # ms))"
    by simp_all
  from Cons.IH [OF s] lt show ?case by simp
qed

lemma greatest_created_order_sorted:
  assumes "sorted_wrt (<) (map mid grp)" and "grp \<noteq> []"
  shows "greatest_created_order grp = last grp"
proof -
  from assms(2) obtain b ms where g: "grp = b # ms" by (cases grp) auto
  with assms(1) fold_pick_sorted [of b ms] show ?thesis
    by (simp add: greatest_created_order_def)
qed

lemma fold_pick_greatest:
  "fold (\<lambda>m best. if mid best \<le> mid m then m else best) ms b \<in> set (b # ms)
   \<and> (\<forall>x\<in>set (b # ms). mid x \<le> mid (fold (\<lambda>m best. if mid best \<le> mid m then m else best) ms b))"
proof (induction ms arbitrary: b)
  case Nil
  show ?case by simp
next
  case (Cons m ms)
  show ?case
    using Cons.IH [of m] Cons.IH [of b] by (auto intro: order_trans)
qed

lemma greatest_created_order_greatest:
  assumes "grp \<noteq> []"
  shows "greatest_created_order grp \<in> set grp"
    and "\<forall>x\<in>set grp. mid x \<le> mid (greatest_created_order grp)"
proof -
  from assms obtain b ms where g: "grp = b # ms" by (cases grp) auto
  show "greatest_created_order grp \<in> set grp"
    using fold_pick_greatest [of ms b] by (simp add: g greatest_created_order_def)
  show "\<forall>x\<in>set grp. mid x \<le> mid (greatest_created_order grp)"
    using fold_pick_greatest [of ms b] by (simp add: g greatest_created_order_def)
qed

lemma sorted_group_of:
  "sorted_wrt (<) (map mid docs) \<Longrightarrow> sorted_wrt (<) (map mid (group_of c docs))"
  unfolding group_of_def by (induction docs) auto

subsection \<open>From the pipeline to the response\<close>

lemma build_out_rows:
  "build_out dbs items = Inr out \<Longrightarrow>
   s \<in> set out \<Longrightarrow> \<exists>it\<in>set items. \<exists>cust. s = summary_of it cust"
proof (induction items arbitrary: out)
  case Nil
  then show ?case by simp
next
  case (Cons it items)
  from Cons.prems(1) obtain cust rest where
    c: "find_customer dbs (g_id it) = Inr cust" and
    r: "build_out dbs items = Inr rest" and
    o: "out = summary_of it cust # rest"
    by (auto split: sum.splits)
  from Cons.prems(2) o have "s = summary_of it cust \<or> s \<in> set rest" by simp
  then show ?case
  proof
    assume "s = summary_of it cust"
    then show ?thesis by auto
  next
    assume "s \<in> set rest"
    from Cons.IH [OF r this] show ?thesis by auto
  qed
qed

lemma aggregate_items:
  assumes "\<And>rows. mset (engine rows) = mset rows"
    and "aggregate engine server q sort_arg limit docs = Inr items"
  shows "\<exists>survivors. match_stage server q docs = Inr survivors
           \<and> set items \<subseteq> set (group_stage survivors)"
proof -
  from assms(2) obtain survivors where
    m: "match_stage server q docs = Inr survivors" and
    i: "items = take (nat limit) (sort_stage sort_arg (engine (group_stage survivors)))"
    by (auto simp: aggregate_def split: if_splits sum.splits)
  have "set (engine (group_stage survivors)) = set (group_stage survivors)"
    using assms(1) by (rule mset_eq_setD)
  then have "set items \<subseteq> set (group_stage survivors)"
    unfolding i sort_stage_def using set_take_subset [of "nat limit"] by fastforce
  with m show ?thesis by blast
qed

lemma match_stage_sorted:
  "match_stage server q docs = Inr survivors \<Longrightarrow> sorted_wrt (<) (map mid docs) \<Longrightarrow>
   sorted_wrt (<) (map mid survivors)"
  by (auto simp: match_stage_def sorted_wrt_map intro: sorted_wrt_filter
           split: option.splits if_splits sum.splits)

lemma engine_empty:
  assumes "\<And>rows. mset (engine rows) = mset rows"
  shows "engine [] = []"
  using assms [of "[]"] by simp


lemma find_customer_message_coll [simp]:
  "find_customer (dbs\<lparr>message_coll := ms\<rparr>) key = find_customer dbs key"
  by (simp add: find_customer_def)

lemma build_out_message_coll [simp]:
  "build_out (dbs\<lparr>message_coll := ms\<rparr>) items = build_out dbs items"
  by (induction items) (simp_all split: sum.splits)

lemma match_stage_None [simp]: "match_stage server None docs = Inr docs"
  by (simp add: match_stage_def)


lemma sort_stage_engine_independent:
  assumes "mset rows1 = mset rows2" and "inj_on (sort_field sort_arg) (set rows1)"
  shows "sort_stage sort_arg rows1 = sort_stage sort_arg rows2"
proof -
  from assms(2) have "inj_on (\<lambda>r. - sort_field sort_arg r) (set rows1)"
    by (simp add: inj_on_def)
  with assms(1) show ?thesis
    unfolding sort_stage_def by (rule sort_key_eq_sort_key)
qed



subsection \<open>Last message and maximum urgency\<close>

text \<open>
  What the pipeline does give, whatever the order of the collection: each summary's
  \<open>last_message\<close> is the text of the last message of the customer's group (among the
  messages that pass the filter) in the order in which the collection is read, and its
  \<open>max_urgency\<close> is the maximum urgency_score across the group. When the collection is
  read in increasing \<open>_id\<close>, the last message of the group is the one with the
  greatest \<open>_id\<close>.
\<close>

lemma conversations_last_message_and_max_urgency:
  assumes "\<And>rows. mset (engine rows) = mset rows"
    and "match_stage (regex_server dbs) q (message_coll dbs) = Inr survivors"
    and "conversations engine dbs q sort_arg limit = Inr out"
    and "s \<in> set out"
  shows "let grp = group_of (out_customer_id s) survivors
         in grp \<noteq> []
          \<and> out_last_message s = text (last grp)
          \<and> (sorted_wrt (<) (map mid (message_coll dbs)) \<longrightarrow>
               out_last_message s = text (greatest_created_order grp))
          \<and> out_max_urgency s = Max (urgency_score ` set grp)
          \<and> ((\<forall>m\<in>set grp. urgency_score m = 0) \<longrightarrow> out_max_urgency s = 0)"
proof -
  from assms(3) obtain items where
    a: "aggregate engine (regex_server dbs) q sort_arg limit (message_coll dbs) = Inr items" and
    b: "build_out dbs items = Inr out"
    by (auto simp: conversations_def split: sum.splits)
  from aggregate_items [OF assms(1) a] assms(2)
  have sub: "set items \<subseteq> set (group_stage survivors)" by auto
  from build_out_rows [OF b assms(4)] obtain it cust where
    it: "it \<in> set items" and s: "s = summary_of it cust" by blast
  from it sub have r: "it \<in> set (group_stage survivors)" by blast
  let ?grp = "group_of (out_customer_id s) survivors"
  have id: "out_customer_id s = g_id it" and lm: "out_last_message s = last_message it"
    and mu: "out_max_urgency s = max_urgency it"
    by (simp_all add: s summary_of_def)
  have 1: "?grp \<noteq> []"
    using group_stage_row(1) [OF r] by (simp add: id)
  have 2: "out_last_message s = text (last ?grp)"
    using group_stage_row(2) [OF r] by (simp add: id lm)
  have 3: "out_last_message s = text (greatest_created_order ?grp)"
    if "sorted_wrt (<) (map mid (message_coll dbs))"
  proof -
    from match_stage_sorted [OF assms(2) that]
    have "sorted_wrt (<) (map mid ?grp)" by (rule sorted_group_of)
    from greatest_created_order_sorted [OF this 1] 2 show ?thesis by simp
  qed
  have 4: "out_max_urgency s = Max (urgency_score ` set ?grp)"
    using group_stage_row(4) [OF r] by (simp add: id mu)
  have 5: "out_max_urgency s = 0"
    if "\<forall>m\<in>set ?grp. urgency_score m = 0"
  proof -
    from that 1 have "urgency_score ` set ?grp = {0}" by (cases ?grp) auto
    with 4 show ?thesis by simp
  qed
  from 1 2 3 4 5 show ?thesis
    unfolding Let_def by blast
qed

text \<open>
  Claim C5 says that each summary's \<open>last_message\<close> is the text of the message with the
  greatest created_order (\<open>_id\<close>) in the customer's group. The pipeline has no \<open>$sort\<close>
  before \<open>$group\<close>, so \<open>$last\<close> takes the last document in the order in which the
  collection is read. Here a customer's collection is read with the document of
  identifier 2 before the one of identifier 1: the message with the greatest
  created_order is "second message about my loan", and the summary carries
  "first message".
\<close>

theorem last_message_is_not_greatest_created_order:
  "conversations id
     (example_db
        [stored_inbound 2 ''5f0000000000000000000001'' ''second message about my loan'',
         stored_inbound 1 ''5f0000000000000000000001'' ''first message''])
     None ''-urgency'' 10
   = Inr [\<lparr>out_customer_id = ''5f0000000000000000000001'', out_customer = None,
           out_last_message = ''first message'', out_max_urgency = 30,
           out_topics = [''loan'']\<rparr>]
   \<and> text (greatest_created_order
        (group_of ''5f0000000000000000000001''
           [stored_inbound 2 ''5f0000000000000000000001'' ''second message about my loan'',
            stored_inbound 1 ''5f0000000000000000000001'' ''first message'']))
     = ''second message about my loan''"
  by code_simp

subsection \<open>The limit and the empty collection\<close>

text \<open>
  Claim C6, as stated: a limit of 0 or less gives an empty sequence, not an error. The
  limit reaches the \<open>$limit\<close> stage unchecked, the database rejects a limit that is
  not positive, and the request fails.
\<close>

theorem limit_zero_raises:
  "conversations id
     (example_db [stored_inbound 1 ''5f0000000000000000000001'' ''first message''])
     None ''-urgency'' 0 = Inl OperationFailure
   \<and> conversations id
     (example_db [stored_inbound 1 ''5f0000000000000000000001'' ''first message''])
     None ''-urgency'' 0 \<noteq> Inr []"
  by code_simp

text \<open>
  Claim C6, amended: for every message collection and every limit of 0 or less the
  aggregation returns no sequence, it fails with an error. An empty collection yields
  the empty sequence, not an error, exactly when the limit is between 1 and
  \<open>2 ^ 63 - 1\<close> and the text filter, if there is one, is a pattern that the database
  accepts; otherwise the request on the empty collection fails as well.
\<close>

theorem conversations_limit_and_empty_collection:
  assumes "\<And>rows. mset (engine rows) = mset rows"
  shows "(limit \<le> 0 \<longrightarrow> (\<exists>e. conversations engine dbs q sort_arg limit = Inl e))
       \<and> (conversations engine (dbs\<lparr>message_coll := []\<rparr>) q sort_arg limit = Inr []
            \<longleftrightarrow> 0 < limit \<and> limit < 2 ^ 63 \<and> filter_accepted (regex_server dbs) q)
       \<and> (\<not> (0 < limit \<and> limit < 2 ^ 63 \<and> filter_accepted (regex_server dbs) q) \<longrightarrow>
            (\<exists>e. conversations engine (dbs\<lparr>message_coll := []\<rparr>) q sort_arg limit = Inl e))"
proof -
  let ?empty = "dbs\<lparr>message_coll := []\<rparr>"
  have 1: "\<exists>e. conversations engine dbs q sort_arg limit = Inl e" if "limit \<le> 0"
    using that by (simp add: conversations_def aggregate_def split: sum.splits)
  have acc: "match_stage (regex_server dbs) q [] = Inr []"
    if "filter_accepted (regex_server dbs) q"
    using that by (auto simp: filter_accepted_def match_stage_def split: option.splits sum.splits)
  have rej: "\<exists>e. match_stage (regex_server dbs) q [] = Inl e"
    if "\<not> filter_accepted (regex_server dbs) q"
    using that by (auto simp: filter_accepted_def match_stage_def split: option.splits sum.splits)
  have 2: "conversations engine ?empty q sort_arg limit = Inr []"
    if "0 < limit" "limit < 2 ^ 63" "filter_accepted (regex_server dbs) q"
    using that(1,2) acc [OF that(3)]
    by (simp add: conversations_def aggregate_def group_stage_def sort_stage_def
                  engine_empty [OF assms])
  have 3: "\<exists>e. conversations engine ?empty q sort_arg limit = Inl e"
    if "\<not> (0 < limit \<and> limit < 2 ^ 63 \<and> filter_accepted (regex_server dbs) q)"
  proof (cases "filter_accepted (regex_server dbs) q")
    case True
    with that have "limit \<le> 0 \<or> 2 ^ 63 - 1 < limit" by auto
    then show ?thesis
      by (auto simp: conversations_def aggregate_def split: sum.splits)
  next
    case False
    from rej [OF this] obtain e where "match_stage (regex_server dbs) q [] = Inl e" ..
    then show ?thesis
      by (simp add: conversations_def aggregate_def)
  qed
  have 4: "conversations engine ?empty q sort_arg limit = Inr []
            \<longleftrightarrow> 0 < limit \<and> limit < 2 ^ 63 \<and> filter_accepted (regex_server dbs) q"
    using 2 3 by fastforce
  from 1 3 4 show ?thesis by blast
qed

theorem conversations_limit_and_empty_collection_witness:
  "(\<exists>e. conversations id
       (example_db [stored_inbound 1 ''5f0000000000000000000001'' ''first message''])
       (Some ''loan'') ''-urgency'' (- 5) = Inl e)
   \<and> conversations id
       ((example_db [stored_inbound 1 ''5f0000000000000000000001'' ''first message''])
          \<lparr>message_coll := []\<rparr>)
       (Some ''loan'') ''-urgency'' 100 = Inr []
   \<and> (\<exists>e. conversations id
       ((example_db [stored_inbound 1 ''5f0000000000000000000001'' ''first message''])
          \<lparr>message_coll := []\<rparr>)
       (Some ''lo(an'') ''-urgency'' 100 = Inl e)"
proof -
  let ?dbs = "example_db [stored_inbound 1 ''5f0000000000000000000001'' ''first message'']"
  have e: "\<And>rows :: group_row list. mset (id rows) = mset rows" by simp
  have acc: "filter_accepted (regex_server ?dbs) (Some ''loan'')"
    by code_simp
  have rej: "\<not> filter_accepted (regex_server ?dbs) (Some ''lo(an'')"
    by code_simp
  have n: "(- 5 :: int) \<le> 0" "(0::int) < 100" "(100::int) < 2 ^ 63"
    by simp_all
  have 1: "\<exists>e. conversations id ?dbs (Some ''loan'') ''-urgency'' (- 5) = Inl e"
    using conversations_limit_and_empty_collection
      [OF e, where limit = "- 5" and q = "Some ''loan''" and sort_arg = "''-urgency''"
         and dbs = ?dbs] n(1)
    by blast
  have 2: "conversations id (?dbs\<lparr>message_coll := []\<rparr>) (Some ''loan'') ''-urgency'' 100 = Inr []"
    using conversations_limit_and_empty_collection
      [OF e, where limit = 100 and q = "Some ''loan''" and sort_arg = "''-urgency''"
         and dbs = ?dbs] n(2,3) acc
    by blast
  have 3: "\<exists>e. conversations id (?dbs\<lparr>message_coll := []\<rparr>) (Some ''lo(an'') ''-urgency'' 100 = Inl e"
    using conversations_limit_and_empty_collection
      [OF e, where limit = 100 and q = "Some ''lo(an''" and sort_arg = "''-urgency''"
         and dbs = ?dbs] rej
    by blast
  from 1 2 3 show ?thesis by blast
qed

subsection \<open>The text filter\<close>




subsection \<open>Equal sort keys\<close>

text \<open>
  Claim C7 says that ties in the sort key are broken in a fixed way, so that two runs
  over the same snapshot agree. The pipeline sorts on the one key only. With two
  customers of equal \<open>max_urgency\<close> and limit 1, the customer that is returned is the
  one the database happens to hand on first: the two orders in which the groups can
  leave \<open>$group\<close> give two different responses.
\<close>

theorem equal_urgency_order_follows_engine:
  "conversations id
     (example_db
        [stored_inbound 1 ''5f0000000000000000000001'' ''loan'',
         stored_inbound 2 ''5f0000000000000000000002'' ''loan''])
     None ''-urgency'' 1
     = Inr [\<lparr>out_customer_id = ''5f0000000000000000000001'', out_customer = None,
             out_last_message = ''loan'', out_max_urgency = 30, out_topics = [''loan'']\<rparr>]
   \<and> conversations rev
     (example_db
        [stored_inbound 1 ''5f0000000000000000000001'' ''loan'',
         stored_inbound 2 ''5f0000000000000000000002'' ''loan''])
     None ''-urgency'' 1
     = Inr [\<lparr>out_customer_id = ''5f0000000000000000000002'', out_customer = None,
             out_last_message = ''loan'', out_max_urgency = 30, out_topics = [''loan'']\<rparr>]"
  by code_simp

end
